theory Spec2Isabelle
  imports Complex_Main
begin

section \<open>Position limits, reputation decay and cartel search of the futarchy simulation\<close>

text \<open>
  The Python sources compute with \<^verbatim>\<open>float\<close> and unbounded \<^verbatim>\<open>int\<close>.  Floats are read
  as the real numbers they denote (type \<^typ>\<open>real\<close>, no rounding), Python integers as
  \<^typ>\<open>int\<close>.  An exception raised by the source is a value of \<open>py_error\<close>, returned
  on the left of a sum.
\<close>

datatype py_error = IndexError | ZeroDivisionError | TypeError

subsection \<open>\<^verbatim>\<open>sybil_simulation.py\<close>: users and the reputation-weighted market\<close>

record User =
  address :: string
  capital :: real
  reputation :: real
  accuracy :: real
  markets_participated :: int

record Market =
  total_liquidity :: real
  participants :: "User list"
  creation_block :: int
  current_block :: int

definition INITIAL_REP :: real where "INITIAL_REP = 100"
definition MIN_REP_FOR_GENESIS :: real where "MIN_REP_FOR_GENESIS = 1000"
definition GENESIS_PHASE_BLOCKS :: int where "GENESIS_PHASE_BLOCKS = 100"
definition EARLY_GROWTH_BLOCKS :: int where "EARLY_GROWTH_BLOCKS = 500"

definition TIER_5_REP :: real where "TIER_5_REP = 10000"
definition TIER_5_ACC :: real where "TIER_5_ACC = 70 / 100"
definition TIER_5_LIMIT :: real where "TIER_5_LIMIT = 5 / 100"
definition TIER_4_REP :: real where "TIER_4_REP = 5000"
definition TIER_4_ACC :: real where "TIER_4_ACC = 65 / 100"
definition TIER_4_LIMIT :: real where "TIER_4_LIMIT = 4 / 100"
definition TIER_3_REP :: real where "TIER_3_REP = 1000"
definition TIER_3_ACC :: real where "TIER_3_ACC = 60 / 100"
definition TIER_3_LIMIT :: real where "TIER_3_LIMIT = 3 / 100"
definition TIER_2_REP :: real where "TIER_2_REP = 500"
definition TIER_2_ACC :: real where "TIER_2_ACC = 55 / 100"
definition TIER_2_LIMIT :: real where "TIER_2_LIMIT = 2 / 100"
definition TIER_1_LIMIT :: real where "TIER_1_LIMIT = 1 / 100"

text \<open>\<^verbatim>\<open>ReputationWeightedMarket.__init__\<close>: both block counters start at 0.\<close>

definition new_market :: "real \<Rightarrow> Market" where
  "new_market liq =
     \<lparr>total_liquidity = liq, participants = [], creation_block = 0, current_block = 0\<rparr>"

definition can_participate_in_genesis :: "Market \<Rightarrow> User \<Rightarrow> bool" where
  "can_participate_in_genesis m user =
     (let blocks_since_creation = current_block m - creation_block m
      in if blocks_since_creation < GENESIS_PHASE_BLOCKS
         then reputation user \<ge> MIN_REP_FOR_GENESIS
         else True)"

text \<open>
  The tier cascade of the standard phase, the local \<^verbatim>\<open>base_limit\<close> of
  \<^verbatim>\<open>calculate_position_limit\<close> (lines 117 to 126).
\<close>

definition base_limit :: "real \<Rightarrow> real \<Rightarrow> real" where
  "base_limit rep acc =
     (if rep \<ge> TIER_5_REP \<and> acc \<ge> TIER_5_ACC then TIER_5_LIMIT
      else if rep \<ge> TIER_4_REP \<and> acc \<ge> TIER_4_ACC then TIER_4_LIMIT
      else if rep \<ge> TIER_3_REP \<and> acc \<ge> TIER_3_ACC then TIER_3_LIMIT
      else if rep \<ge> TIER_2_REP \<and> acc \<ge> TIER_2_ACC then TIER_2_LIMIT
      else TIER_1_LIMIT)"

definition calculate_position_limit :: "Market \<Rightarrow> User \<Rightarrow> real" where
  "calculate_position_limit m user =
     (let blocks_since_creation = current_block m - creation_block m
      in if blocks_since_creation < GENESIS_PHASE_BLOCKS then
           (if \<not> can_participate_in_genesis m user then 0
            else
              let rep_factor = min (reputation user / MIN_REP_FOR_GENESIS) 10;
                  min_liquidity = 1000;
                  max_genesis = (min_liquidity * (20 / 100) * rep_factor) / 10
              in min max_genesis (total_liquidity m * (20 / 100)))
         else if blocks_since_creation < EARLY_GROWTH_BLOCKS then
           (let block_progress = blocks_since_creation - GENESIS_PHASE_BLOCKS;
                phase_length = EARLY_GROWTH_BLOCKS - GENESIS_PHASE_BLOCKS;
                percentage_limit =
                  30 / 100 + (real_of_int block_progress / real_of_int phase_length) * (20 / 100)
            in total_liquidity m * percentage_limit)
         else
           total_liquidity m * base_limit (reputation user) (accuracy user))"

subsection \<open>\<^verbatim>\<open>prediction_accuracy.py\<close>: the tier lookup as a fraction\<close>

text \<open>
  \<^verbatim>\<open>ReputationWeightedMarket.calculate_position_limit(reputation, accuracy)\<close> of
  \<^verbatim>\<open>prediction_accuracy.py\<close>; the class has the same tier constants as the one above.
\<close>

definition pa_calculate_position_limit :: "real \<Rightarrow> real \<Rightarrow> real" where
  "pa_calculate_position_limit rep acc =
     (if rep \<ge> TIER_5_REP \<and> acc \<ge> TIER_5_ACC then TIER_5_LIMIT
      else if rep \<ge> TIER_4_REP \<and> acc \<ge> TIER_4_ACC then TIER_4_LIMIT
      else if rep \<ge> TIER_3_REP \<and> acc \<ge> TIER_3_ACC then TIER_3_LIMIT
      else if rep \<ge> TIER_2_REP \<and> acc \<ge> TIER_2_ACC then TIER_2_LIMIT
      else TIER_1_LIMIT)"

subsection \<open>\<^verbatim>\<open>sybil_simulation.py\<close>: reputation decay\<close>

definition DECAY_RATE :: real where "DECAY_RATE = 1 / 100"
definition DECAY_PERIOD_DAYS :: int where "DECAY_PERIOD_DAYS = 30"
definition MIN_ACTIVITY_THRESHOLD_DAYS :: int where "MIN_ACTIVITY_THRESHOLD_DAYS = 90"
definition MIN_PROTECTION_RATE :: real where "MIN_PROTECTION_RATE = 25 / 100"

record decay_result =
  months_inactive :: int
  initial_reputation :: real
  decayed_reputation :: real
  decay_amount :: real
  decay_percentage :: real
  remaining_percentage :: real

text \<open>
  The locals \<^verbatim>\<open>decay_periods\<close> and \<^verbatim>\<open>total_decay_rate\<close> of the else branch
  (lines 301 to 305), as functions of the argument \<^verbatim>\<open>months_inactive\<close>.
\<close>

definition decay_periods :: "int \<Rightarrow> real" where
  "decay_periods months =
     (let inactive_days = months * 30 - MIN_ACTIVITY_THRESHOLD_DAYS
      in real_of_int inactive_days / real_of_int DECAY_PERIOD_DAYS)"

definition total_decay_rate :: "int \<Rightarrow> real" where
  "total_decay_rate months = min (DECAY_RATE * decay_periods months) (1 - MIN_PROTECTION_RATE)"

definition simulate_reputation_decay_resistance :: "real \<Rightarrow> int \<Rightarrow> decay_result" where
  "simulate_reputation_decay_resistance initial_rep months =
     (let (remaining_rep, amount) =
            (if months * 30 \<le> MIN_ACTIVITY_THRESHOLD_DAYS then (initial_rep, 0)
             else
               let amount = initial_rep * total_decay_rate months
               in (max (initial_rep - amount) (initial_rep * MIN_PROTECTION_RATE), amount))
      in \<lparr>months_inactive = months,
          initial_reputation = initial_rep,
          decayed_reputation = remaining_rep,
          decay_amount = amount,
          decay_percentage = (if initial_rep > 0 then amount / initial_rep * 100 else 0),
          remaining_percentage =
            (if initial_rep > 0 then remaining_rep / initial_rep * 100 else 0)\<rparr>)"

subsection \<open>\<^verbatim>\<open>cartel_analysis.py\<close>: the legislator cartel\<close>

record LegislatorCartel =
  n_legislators :: int
  scores :: "real list"
  reputations :: "real list"
  market_value :: real

definition OVERRIDE_THRESHOLD :: real where "OVERRIDE_THRESHOLD = 6666 / 10000"
definition MIN_LEGISLATORS :: int where "MIN_LEGISLATORS = 7"
definition MAX_LEGISLATORS :: int where "MAX_LEGISLATORS = 21"
definition TERM_LENGTH_WEEKS :: int where "TERM_LENGTH_WEEKS = 12"
definition SLASH_PENALTY :: real where "SLASH_PENALTY = 10 / 100"

text \<open>
  Subscripting a Python list: an index below zero counts from the end, an index outside
  the list raises \<^verbatim>\<open>IndexError\<close>.
\<close>

definition py_index :: "'a list \<Rightarrow> int \<Rightarrow> py_error + 'a" where
  "py_index xs i =
     (if 0 \<le> i \<and> i < int (length xs) then Inr (xs ! nat i)
      else if i < 0 \<and> - int (length xs) \<le> i then Inr (xs ! nat (int (length xs) + i))
      else Inl IndexError)"

text \<open>\<^verbatim>\<open>sum(xs[i] for i in members)\<close>: the first bad index raises.\<close>

fun sum_at :: "real list \<Rightarrow> int list \<Rightarrow> py_error + real" where
  "sum_at xs [] = Inr 0"
| "sum_at xs (i # rest) =
     (case py_index xs i of
        Inl e \<Rightarrow> Inl e
      | Inr v \<Rightarrow> (case sum_at xs rest of Inl e \<Rightarrow> Inl e | Inr s \<Rightarrow> Inr (v + s)))"

record power_data =
  cartel_size :: nat
  voting_power :: real
  can_override :: bool
  score_share :: real
  rep_share :: real

definition calculate_cartel_power :: "LegislatorCartel \<Rightarrow> int list \<Rightarrow> py_error + power_data" where
  "calculate_cartel_power c members =
     (case sum_at (scores c) members of
        Inl e \<Rightarrow> Inl e
      | Inr cartel_score_sum \<Rightarrow>
     (case sum_at (reputations c) members of
        Inl e \<Rightarrow> Inl e
      | Inr cartel_rep_sum \<Rightarrow>
     (let total_score_sum = sum_list (scores c);
          total_rep_sum = sum_list (reputations c)
      in if total_score_sum = 0 \<or> total_rep_sum = 0 then Inl ZeroDivisionError
         else
           let cartel_power = (6 / 10) * cartel_score_sum / total_score_sum
                            + (4 / 10) * cartel_rep_sum / total_rep_sum
           in Inr \<lparr>cartel_size = length members,
                   voting_power = cartel_power,
                   can_override = (cartel_power \<ge> OVERRIDE_THRESHOLD),
                   score_share = cartel_score_sum / total_score_sum,
                   rep_share = cartel_rep_sum / total_rep_sum\<rparr>)))"

text \<open>
  One pass of the loop of \<^verbatim>\<open>calculate_attack_cost\<close> (lines 60 to 73): the cost of one
  member of a cartel of \<open>len\<close> members.
\<close>

definition member_cost :: "LegislatorCartel \<Rightarrow> nat \<Rightarrow> int \<Rightarrow> py_error + real" where
  "member_cost c len member =
     (let expected_earnings = market_value c * (25 / 1000) * real_of_int TERM_LENGTH_WEEKS
      in case py_index (reputations c) member of
           Inl e \<Rightarrow> Inl e
         | Inr rep_value \<Rightarrow>
             let rep_risk = rep_value * SLASH_PENALTY * (30 / 100);
                 coord_cost = real len * (1 / 10)
             in Inr (expected_earnings + rep_risk + coord_cost))"

fun member_costs :: "LegislatorCartel \<Rightarrow> nat \<Rightarrow> int list \<Rightarrow> py_error + real list" where
  "member_costs c len [] = Inr []"
| "member_costs c len (member # rest) =
     (case member_cost c len member of
        Inl e \<Rightarrow> Inl e
      | Inr v \<Rightarrow> (case member_costs c len rest of Inl e \<Rightarrow> Inl e | Inr vs \<Rightarrow> Inr (v # vs)))"

definition calculate_attack_cost :: "LegislatorCartel \<Rightarrow> int list \<Rightarrow> py_error + real" where
  "calculate_attack_cost c members =
     (case member_costs c (length members) members of
        Inl e \<Rightarrow> Inl e
      | Inr costs \<Rightarrow>
          let base_cost = sum_list costs;
              overhead = base_cost * (real_of_int (int (length members) - 1)) * (5 / 100)
          in Inr (base_cost + overhead))"

subsubsection \<open>Exact enumeration\<close>

text \<open>
  \<^verbatim>\<open>itertools.combinations(xs, k)\<close>: the subsequences of length \<open>k\<close>, in
  lexicographic order of their positions.
\<close>

fun combinations :: "'a list \<Rightarrow> nat \<Rightarrow> 'a list list" where
  "combinations xs 0 = [[]]"
| "combinations [] (Suc k) = []"
| "combinations (x # xs) (Suc k) = map ((#) x) (combinations xs k) @ combinations xs (Suc k)"

definition py_range :: "int \<Rightarrow> int \<Rightarrow> int list" where
  "py_range lo hi = map int [nat lo..<nat hi]"

record bf_result =
  bf_size :: int
  bf_members :: "int list"
  bf_cost :: real
  bf_power :: real

text \<open>The inner loop of \<^verbatim>\<open>brute_force_cartels\<close> over the cartels of one size.\<close>

fun bf_cartels :: "LegislatorCartel \<Rightarrow> int \<Rightarrow> int list list \<Rightarrow> py_error + bf_result list" where
  "bf_cartels c sz [] = Inr []"
| "bf_cartels c sz (cartel_list # rest) =
     (case calculate_cartel_power c cartel_list of
        Inl e \<Rightarrow> Inl e
      | Inr pd \<Rightarrow>
          if can_override pd then
            (case calculate_attack_cost c cartel_list of
               Inl e \<Rightarrow> Inl e
             | Inr cost \<Rightarrow>
                 (case bf_cartels c sz rest of
                    Inl e \<Rightarrow> Inl e
                  | Inr rs \<Rightarrow>
                      Inr (\<lparr>bf_size = sz, bf_members = cartel_list, bf_cost = cost,
                            bf_power = voting_power pd\<rparr> # rs)))
          else bf_cartels c sz rest)"

text \<open>The outer loop over the sizes.\<close>

fun bf_sizes :: "LegislatorCartel \<Rightarrow> int list \<Rightarrow> py_error + bf_result list" where
  "bf_sizes c [] = Inr []"
| "bf_sizes c (sz # rest) =
     (case bf_cartels c sz (combinations (py_range 0 (n_legislators c)) (nat sz)) of
        Inl e \<Rightarrow> Inl e
      | Inr rs \<Rightarrow> (case bf_sizes c rest of Inl e \<Rightarrow> Inl e | Inr rs' \<Rightarrow> Inr (rs @ rs')))"

definition brute_force_cartels :: "LegislatorCartel \<Rightarrow> py_error + bf_result list" where
  "brute_force_cartels c =
     (case bf_sizes c (py_range MIN_LEGISLATORS (n_legislators c + 1)) of
        Inl e \<Rightarrow> Inl e
      | Inr results \<Rightarrow> Inr (sort_key bf_cost results))"

subsubsection \<open>The 0/1 programme\<close>

text \<open>
  \<^verbatim>\<open>find_minimum_cartel\<close> builds a minimisation problem over one binary variable per
  legislator and hands it to the external solver (PuLP with CBC).  The problem is the
  record below: the coefficients of the objective and the two sums of the constraint,
  which must reach \<open>lp_rhs\<close>.
\<close>

record lp_problem =
  lp_objective :: "real list"
  lp_score_terms :: "real list"
  lp_rep_terms :: "real list"
  lp_rhs :: real

text \<open>Lines 90 to 94: the per-legislator costs of the objective.\<close>

fun lp_costs :: "LegislatorCartel \<Rightarrow> int list \<Rightarrow> py_error + real list" where
  "lp_costs c [] = Inr []"
| "lp_costs c (i # rest) =
     (let expected_earnings = market_value c * (25 / 1000) * real_of_int TERM_LENGTH_WEEKS
      in case py_index (reputations c) i of
           Inl e \<Rightarrow> Inl e
         | Inr rep_value \<Rightarrow>
             let rep_risk = rep_value * SLASH_PENALTY * (30 / 100)
             in (case lp_costs c rest of
                   Inl e \<Rightarrow> Inl e
                 | Inr vs \<Rightarrow> Inr ((expected_earnings + rep_risk) # vs)))"

text \<open>
  Lines 102 to 104: the coefficients \<^verbatim>\<open>w * xs[i] / total\<close> of one sum of the constraint;
  the subscript is evaluated before the division.
\<close>

fun lp_terms :: "real \<Rightarrow> real list \<Rightarrow> real \<Rightarrow> int list \<Rightarrow> py_error + real list" where
  "lp_terms w xs total_sum [] = Inr []"
| "lp_terms w xs total_sum (i # rest) =
     (case py_index xs i of
        Inl e \<Rightarrow> Inl e
      | Inr v \<Rightarrow>
          if total_sum = 0 then Inl ZeroDivisionError
          else (case lp_terms w xs total_sum rest of
                  Inl e \<Rightarrow> Inl e
                | Inr vs \<Rightarrow> Inr (w * v / total_sum # vs)))"

definition build_problem :: "LegislatorCartel \<Rightarrow> py_error + lp_problem" where
  "build_problem c =
     (case lp_costs c (py_range 0 (n_legislators c)) of
        Inl e \<Rightarrow> Inl e
      | Inr costs \<Rightarrow>
     (let total_score = sum_list (scores c);
          total_rep = sum_list (reputations c)
      in case lp_terms (6 / 10) (scores c) total_score (py_range 0 (n_legislators c)) of
           Inl e \<Rightarrow> Inl e
         | Inr st \<Rightarrow>
        (case lp_terms (4 / 10) (reputations c) total_rep (py_range 0 (n_legislators c)) of
           Inl e \<Rightarrow> Inl e
         | Inr rt \<Rightarrow>
             Inr \<lparr>lp_objective = costs, lp_score_terms = st, lp_rep_terms = rt,
                  lp_rhs = OVERRIDE_THRESHOLD\<rparr>)))"

text \<open>
  After \<^verbatim>\<open>prob.solve\<close>, variable \<^verbatim>\<open>x_i\<close> carries \<^verbatim>\<open>varValue\<close>: a number, or \<^verbatim>\<open>None\<close>
  when the solver assigned nothing.  The solver is not part of the repository, so its
  outcome is a parameter \<open>sol\<close> of the model, \<open>sol i\<close> being the \<^verbatim>\<open>varValue\<close> of
  \<^verbatim>\<open>x_i\<close>.  Line 110 compares each with \<^verbatim>\<open>0.5\<close>, a \<^verbatim>\<open>TypeError\<close> on \<^verbatim>\<open>None\<close>.
\<close>

fun select_members :: "(nat \<Rightarrow> real option) \<Rightarrow> nat list \<Rightarrow> py_error + int list" where
  "select_members sol [] = Inr []"
| "select_members sol (i # rest) =
     (case sol i of
        None \<Rightarrow> Inl TypeError
      | Some v \<Rightarrow>
          (case select_members sol rest of
             Inl e \<Rightarrow> Inl e
           | Inr ms \<Rightarrow> Inr (if v > 5 / 10 then int i # ms else ms)))"

definition var_values :: "(nat \<Rightarrow> real option) \<Rightarrow> nat \<Rightarrow> real list" where
  "var_values sol k = map (\<lambda>i. case sol i of Some v \<Rightarrow> v | None \<Rightarrow> 0) [0..<k]"

definition lp_value :: "real list \<Rightarrow> real list \<Rightarrow> real" where
  "lp_value coeffs vals = sum_list (map2 (*) coeffs vals)"

record lp_result =
  cartel_members :: "int list"
  lp_cartel_size :: nat
  total_cost :: real
  lp_power :: power_data

definition find_minimum_cartel ::
  "(nat \<Rightarrow> real option) \<Rightarrow> LegislatorCartel \<Rightarrow> py_error + lp_result" where
  "find_minimum_cartel sol c =
     (case build_problem c of
        Inl e \<Rightarrow> Inl e
      | Inr prob \<Rightarrow>
     (case select_members sol [0..<nat (n_legislators c)] of
        Inl e \<Rightarrow> Inl e
      | Inr members \<Rightarrow>
     (case calculate_cartel_power c members of
        Inl e \<Rightarrow> Inl e
      | Inr pd \<Rightarrow>
          Inr \<lparr>cartel_members = members,
               lp_cartel_size = length members,
               total_cost =
                 lp_value (lp_objective prob) (var_values sol (nat (n_legislators c))),
               lp_power = pd\<rparr>)))"

text \<open>
  What the solver is relied on for: on a feasible problem its outcome is an optimal
  solution.  An assignment gives every variable the value 0 or 1; it is feasible when
  the two sums of the constraint reach the right-hand side, and optimal when no feasible
  assignment has a smaller objective.
\<close>

definition binary_assignments :: "nat \<Rightarrow> real list list" where
  "binary_assignments k = List.n_lists k [0, 1]"

definition lp_feasible :: "lp_problem \<Rightarrow> real list \<Rightarrow> bool" where
  "lp_feasible prob vals =
     (lp_value (lp_score_terms prob) vals + lp_value (lp_rep_terms prob) vals \<ge> lp_rhs prob)"

definition lp_optimal :: "lp_problem \<Rightarrow> (nat \<Rightarrow> real option) \<Rightarrow> bool" where
  "lp_optimal prob sol =
     (let k = length (lp_objective prob); vals = var_values sol k
      in list_all (\<lambda>i. sol i = Some 0 \<or> sol i = Some 1) [0..<k]
         \<and> lp_feasible prob vals
         \<and> list_all (\<lambda>ys. lp_feasible prob ys \<longrightarrow>
                      lp_value (lp_objective prob) vals \<le> lp_value (lp_objective prob) ys)
             (binary_assignments k))"

subsubsection \<open>Auxiliary notions for the statements\<close>

text \<open>The members of a cartel are positions of the population: indices from 0 below its length.\<close>

definition valid_members :: "'a list \<Rightarrow> int list \<Rightarrow> bool" where
  "valid_members xs members = list_all (\<lambda>i. 0 \<le> i \<and> i < int (length xs)) members"

text \<open>
  The cost model in the words of the specification (section 4.5), to be compared with
  \<open>calculate_attack_cost\<close>: a member costs the expected earnings plus the reputation
  risk, and the coordination overhead is the sum of the member costs times the
  coalition size minus one times the overhead rate.
\<close>

definition spec_attack_cost :: "LegislatorCartel \<Rightarrow> int list \<Rightarrow> real" where
  "spec_attack_cost c members =
     (let member_sum =
            (\<Sum>i\<leftarrow>members. market_value c * (25 / 1000) * 12
                          + reputations c ! nat i * (10 / 100) * (30 / 100))
      in member_sum + member_sum * (real (length members) - 1) * (5 / 100))"

text \<open>The population is well formed: one score and one reputation per legislator.\<close>

definition population_ok :: "LegislatorCartel \<Rightarrow> bool" where
  "population_ok c =
     (length (scores c) = nat (n_legislators c) \<and> length (reputations c) = nat (n_legislators c))"

text \<open>
  The assignment that gives 1 to the variables of the members of a cartel and 0 to the
  others, over \<open>k\<close> variables.
\<close>

definition indicator_of :: "int list \<Rightarrow> nat \<Rightarrow> real list" where
  "indicator_of members k = map (\<lambda>i. if int i \<in> set members then 1 else 0) [0..<k]"

text \<open>The coefficient of \<^verbatim>\<open>x_i\<close> in the objective (lines 92 to 94).\<close>

definition lp_cost_of :: "LegislatorCartel \<Rightarrow> nat \<Rightarrow> real" where
  "lp_cost_of c i = market_value c * (25 / 1000) * 12 + reputations c ! i * (10 / 100) * (30 / 100)"

text \<open>The variables an outcome sets to 1, as a cartel.\<close>

definition chosen :: "(nat \<Rightarrow> real option) \<Rightarrow> nat \<Rightarrow> int list" where
  "chosen sol k = map int (filter (\<lambda>i. sol i = Some 1) [0..<k])"

text \<open>
  What the model assumes of the solver: when the problem built by
  \<^verbatim>\<open>find_minimum_cartel\<close> has a feasible assignment, the outcome is an optimal one.
\<close>

definition solver_contract :: "LegislatorCartel \<Rightarrow> (nat \<Rightarrow> real option) \<Rightarrow> bool" where
  "solver_contract c sol =
     (case build_problem c of
        Inl e \<Rightarrow> True
      | Inr prob \<Rightarrow>
          list_ex (lp_feasible prob) (binary_assignments (length (lp_objective prob)))
          \<longrightarrow> lp_optimal prob sol)"

text \<open>
  The scenario of the specification: seven legislators, \<^verbatim>\<open>scores = [100] * 7\<close> and
  \<^verbatim>\<open>reputations = [100] * 7\<close>, with a market value \<open>mv\<close>.
\<close>

definition uniform_seven :: "real \<Rightarrow> LegislatorCartel" where
  "uniform_seven mv =
     \<lparr>n_legislators = 7, scores = replicate 7 100, reputations = replicate 7 100,
      market_value = mv\<rparr>"

text \<open>The variables a list of values sets to 1, as a cartel.\<close>

definition support :: "real list \<Rightarrow> int list" where
  "support ys = map int (filter (\<lambda>i. ys ! i = 1) [0..<length ys])"

section \<open>Constants\<close>

lemmas tier_defs =
  TIER_5_REP_def TIER_5_ACC_def TIER_5_LIMIT_def
  TIER_4_REP_def TIER_4_ACC_def TIER_4_LIMIT_def
  TIER_3_REP_def TIER_3_ACC_def TIER_3_LIMIT_def
  TIER_2_REP_def TIER_2_ACC_def TIER_2_LIMIT_def
  TIER_1_LIMIT_def

lemmas phase_defs =
  MIN_REP_FOR_GENESIS_def GENESIS_PHASE_BLOCKS_def EARLY_GROWTH_BLOCKS_def

lemmas decay_defs =
  DECAY_RATE_def DECAY_PERIOD_DAYS_def MIN_ACTIVITY_THRESHOLD_DAYS_def MIN_PROTECTION_RATE_def

lemmas cartel_defs =
  OVERRIDE_THRESHOLD_def MIN_LEGISLATORS_def TERM_LENGTH_WEEKS_def SLASH_PENALTY_def

section \<open>Position limits\<close>

lemma base_limit_bounds: "1 / 100 \<le> base_limit rep acc \<and> base_limit rep acc \<le> 5 / 100"
  by (simp add: base_limit_def tier_defs)

lemma early_growth_fraction:
  assumes "(100::int) \<le> b" and "b < 500"
  shows "30 / 100 + (real_of_int (b - 100) / real_of_int (500 - 100)) * (20 / 100) \<le> (1::real)"
proof -
  have "real_of_int b \<le> 500" using assms by simp
  then show ?thesis by (simp add: field_simps)
qed

text \<open>
  C1. For a market with non-negative liquidity, the position limit of any user at any
  block is at most the market's total liquidity, whichever of the three phases
  (genesis, early growth, standard) the market is in.
\<close>

theorem position_limit_le_liquidity:
  assumes "0 \<le> total_liquidity m"
  shows "calculate_position_limit m user \<le> total_liquidity m"
proof -
  let ?b = "current_block m - creation_block m"
  let ?L = "total_liquidity m"
  consider (genesis) "?b < 100" | (early) "100 \<le> ?b" "?b < 500" | (standard) "500 \<le> ?b"
    by linarith
  then show ?thesis
  proof cases
    case genesis
    have "min x (?L * (20 / 100)) \<le> ?L" for x
      using assms by (simp add: min_def)
    with genesis assms show ?thesis
      by (simp add: calculate_position_limit_def Let_def phase_defs)
  next
    case early
    have "?L * (30 / 100 + (real_of_int (?b - 100) / real_of_int (500 - 100)) * (20 / 100))
          \<le> ?L * 1"
      using early_growth_fraction [OF early] assms by (intro mult_left_mono) auto
    with early show ?thesis
      by (simp add: calculate_position_limit_def Let_def phase_defs)
  next
    case standard
    have "?L * base_limit (reputation user) (accuracy user) \<le> ?L * 1"
      using base_limit_bounds [of "reputation user" "accuracy user"] assms
      by (intro mult_left_mono) auto
    with standard show ?thesis
      by (simp add: calculate_position_limit_def Let_def phase_defs)
  qed
qed

theorem position_limit_le_liquidity_witness:
  "0 \<le> total_liquidity ((new_market 1000)\<lparr>current_block := 600\<rparr>)
   \<and> calculate_position_limit ((new_market 1000)\<lparr>current_block := 600\<rparr>)
         \<lparr>address = ''alice'', capital = 50, reputation = 1500, accuracy = 75 / 100,
          markets_participated = 3\<rparr>
       \<le> total_liquidity ((new_market 1000)\<lparr>current_block := 600\<rparr>)"
  using position_limit_le_liquidity [of "(new_market 1000)\<lparr>current_block := 600\<rparr>"
     "\<lparr>address = ''alice'', capital = 50, reputation = 1500, accuracy = 75 / 100,
       markets_participated = 3\<rparr>"]
  by (simp add: new_market_def)

text \<open>
  C2. While fewer than 100 blocks have passed since creation, the position limit is
  exactly 0 for a user whose reputation is below 1000, and otherwise
  \<open>min ((1000 * 0.20 * min (reputation / 1000) 10) / 10) (total_liquidity * 0.20)\<close>.
\<close>

theorem genesis_position_limit:
  assumes "current_block m - creation_block m < 100"
  shows "calculate_position_limit m user =
     (if reputation user < 1000 then 0
      else min ((1000 * (20 / 100) * min (reputation user / 1000) 10) / 10)
               (total_liquidity m * (20 / 100)))"
  using assms
  by (simp add: calculate_position_limit_def can_participate_in_genesis_def Let_def phase_defs
      not_le)

theorem genesis_position_limit_witness:
  "current_block ((new_market 400)\<lparr>current_block := 50\<rparr>)
     - creation_block ((new_market 400)\<lparr>current_block := 50\<rparr>) < 100
   \<and> calculate_position_limit ((new_market 400)\<lparr>current_block := 50\<rparr>)
        \<lparr>address = ''bob'', capital = 500, reputation = 2000, accuracy = 1 / 2,
         markets_participated = 1\<rparr> = 40
   \<and> calculate_position_limit ((new_market 400)\<lparr>current_block := 50\<rparr>)
        \<lparr>address = ''sybil_0'', capital = 500, reputation = 100, accuracy = 1 / 2,
         markets_participated = 1\<rparr> = 0"
  using genesis_position_limit [of "(new_market 400)\<lparr>current_block := 50\<rparr>"
      "\<lparr>address = ''bob'', capital = 500, reputation = 2000, accuracy = 1 / 2,
        markets_participated = 1\<rparr>"]
    genesis_position_limit [of "(new_market 400)\<lparr>current_block := 50\<rparr>"
      "\<lparr>address = ''sybil_0'', capital = 500, reputation = 100, accuracy = 1 / 2,
        markets_participated = 1\<rparr>"]
  by (simp add: new_market_def)

text \<open>
  C10. In the genesis phase the position limit of a user admitted to genesis is
  \<open>min (20 * rep_factor) (0.20 * total_liquidity)\<close> with the reputation factor
  \<open>min (reputation / 1000) 10\<close>, hence at most 200, however large the reputation and
  the liquidity are.
\<close>

theorem genesis_limit_at_most_200:
  assumes "current_block m - creation_block m < 100" and "can_participate_in_genesis m user"
  shows "calculate_position_limit m user =
           min (20 * min (reputation user / 1000) 10) ((20 / 100) * total_liquidity m)
         \<and> calculate_position_limit m user \<le> 200"
  using assms
  by (simp add: calculate_position_limit_def can_participate_in_genesis_def Let_def phase_defs
      min_def)

theorem genesis_limit_at_most_200_witness:
  "current_block ((new_market 1000000)\<lparr>current_block := 99\<rparr>)
     - creation_block ((new_market 1000000)\<lparr>current_block := 99\<rparr>) < 100
   \<and> can_participate_in_genesis ((new_market 1000000)\<lparr>current_block := 99\<rparr>)
        \<lparr>address = ''carol'', capital = 1, reputation = 50000, accuracy = 9 / 10,
         markets_participated = 70\<rparr>
   \<and> calculate_position_limit ((new_market 1000000)\<lparr>current_block := 99\<rparr>)
        \<lparr>address = ''carol'', capital = 1, reputation = 50000, accuracy = 9 / 10,
         markets_participated = 70\<rparr> = 200"
  using genesis_limit_at_most_200 [of "(new_market 1000000)\<lparr>current_block := 99\<rparr>"
      "\<lparr>address = ''carol'', capital = 1, reputation = 50000, accuracy = 9 / 10,
        markets_participated = 70\<rparr>"]
  by (simp add: new_market_def can_participate_in_genesis_def phase_defs)

section \<open>The tier lookup\<close>

text \<open>
  C7. The tier lookup is monotone: when neither the reputation nor the accuracy
  decreases, the limit fraction does not decrease.  This holds for the lookup of
  \<^verbatim>\<open>prediction_accuracy.py\<close> and for the standard-phase cascade of
  \<^verbatim>\<open>sybil_simulation.py\<close>.
\<close>

theorem tier_lookup_monotone:
  assumes "rep1 \<le> rep2" and "acc1 \<le> acc2"
  shows "pa_calculate_position_limit rep1 acc1 \<le> pa_calculate_position_limit rep2 acc2
         \<and> base_limit rep1 acc1 \<le> base_limit rep2 acc2"
  using assms by (simp add: pa_calculate_position_limit_def base_limit_def tier_defs)

theorem tier_lookup_monotone_witness:
  "(900::real) \<le> 1500 \<and> (62 / 100 ::real) \<le> 75 / 100
   \<and> pa_calculate_position_limit 900 (62 / 100) = 2 / 100
   \<and> pa_calculate_position_limit 1500 (75 / 100) = 3 / 100
   \<and> pa_calculate_position_limit 900 (62 / 100) \<le> pa_calculate_position_limit 1500 (75 / 100)
   \<and> base_limit 900 (62 / 100) \<le> base_limit 1500 (75 / 100)"
  using tier_lookup_monotone [of 900 1500 "62 / 100" "75 / 100"]
  by (simp add: pa_calculate_position_limit_def tier_defs)

section \<open>Reputation decay\<close>

lemma decayed_eq:
  "decayed_reputation (simulate_reputation_decay_resistance rep months) =
     (if months * 30 \<le> 90 then rep
      else max (rep - rep * total_decay_rate months) (rep * (25 / 100)))"
  by (simp add: simulate_reputation_decay_resistance_def decay_defs Let_def)

lemma total_decay_rate_mono: "m1 \<le> m2 \<Longrightarrow> total_decay_rate m1 \<le> total_decay_rate m2"
  by (simp add: total_decay_rate_def decay_periods_def decay_defs Let_def min_def
      divide_right_mono)

lemma total_decay_rate_nonneg: "90 < months * 30 \<Longrightarrow> 0 \<le> total_decay_rate months"
  by (simp add: total_decay_rate_def decay_periods_def decay_defs Let_def)

lemma decay_floor:
  assumes "0 \<le> rep"
  shows "rep * (25 / 100) \<le> decayed_reputation (simulate_reputation_decay_resistance rep months)"
proof (cases "months * 30 \<le> 90")
  case True
  with assms show ?thesis by (simp add: decayed_eq)
next
  case False
  have "rep * (25 / 100) \<le> max (rep - rep * total_decay_rate months) (rep * (25 / 100))"
    by (rule max.cobounded2)
  with False show ?thesis by (simp only: decayed_eq if_False)
qed

lemma decay_antimono:
  assumes "0 \<le> rep" and le: "m1 \<le> m2"
  shows "decayed_reputation (simulate_reputation_decay_resistance rep m2)
         \<le> decayed_reputation (simulate_reputation_decay_resistance rep m1)"
proof (cases "m2 * 30 \<le> 90")
  case True
  with le show ?thesis by (simp add: decayed_eq)
next
  case late: False
  then have pos: "0 \<le> rep * total_decay_rate m2"
    using assms total_decay_rate_nonneg [of m2] by simp
  show ?thesis
  proof (cases "m1 * 30 \<le> 90")
    case True
    with late pos assms show ?thesis by (simp add: decayed_eq)
  next
    case False
    have "rep * total_decay_rate m1 \<le> rep * total_decay_rate m2"
      using total_decay_rate_mono [OF le] assms(1) by (rule mult_left_mono)
    with False late show ?thesis by (simp add: decayed_eq max_def)
  qed
qed

text \<open>
  C8. For a non-negative initial reputation, no inactivity leaves the reputation as it
  is, a longer inactivity never leaves more reputation than a shorter one, and at least
  a quarter of the initial reputation always remains.  The source measures the
  inactivity in months of 30 days (\<^verbatim>\<open>months_inactive\<close>).
\<close>

theorem decay_properties:
  assumes "0 \<le> rep"
  shows "decayed_reputation (simulate_reputation_decay_resistance rep 0) = rep
         \<and> (m1 \<le> m2 \<longrightarrow>
              decayed_reputation (simulate_reputation_decay_resistance rep m2)
              \<le> decayed_reputation (simulate_reputation_decay_resistance rep m1))
         \<and> rep * (25 / 100)
             \<le> decayed_reputation (simulate_reputation_decay_resistance rep months)"
  using assms decay_floor [of rep months] decay_antimono [of rep m1 m2]
  by (simp add: decayed_eq)

theorem decay_properties_witness:
  "(0::real) \<le> 10000
   \<and> decayed_reputation (simulate_reputation_decay_resistance 10000 0) = 10000
   \<and> (3::int) \<le> 12
   \<and> decayed_reputation (simulate_reputation_decay_resistance 10000 12)
       \<le> decayed_reputation (simulate_reputation_decay_resistance 10000 3)
   \<and> 10000 * (25 / 100) \<le> decayed_reputation (simulate_reputation_decay_resistance 10000 120)"
  using decay_properties [of 10000 3 12 120] by simp

text \<open>
  C9, as stated: twelve months of inactivity give about 9.17 decay periods, a total
  decay rate of about 0.0917 and about 9083 of 10000 reputation points.  The source
  counts twelve months as 360 days, and each of the three figures is off by more than
  the rounding of the stated digits.
\<close>

theorem decay_twelve_months_counterexample:
  "\<bar>decay_periods 12 - 917 / 100\<bar> > 1 / 10
   \<and> \<bar>total_decay_rate 12 - 917 / 10000\<bar> > 1 / 1000
   \<and> \<bar>decayed_reputation (simulate_reputation_decay_resistance 10000 12) - 9083\<bar> > 10"
  by (simp add: decayed_eq total_decay_rate_def decay_periods_def decay_defs)

text \<open>
  C9, amended. Twelve months of inactivity are 360 days: the decay periods are
  \<open>(360 - 90) / 30 = 9\<close>, the total decay rate is \<open>min 0.09 0.75 = 0.09\<close>, and of
  10000 reputation points 9100 remain, above the floor of 2500.
\<close>

theorem decay_twelve_months:
  "decay_periods 12 = (360 - 90) / 30 \<and> decay_periods 12 = 9
   \<and> total_decay_rate 12 = min (9 / 100) (75 / 100) \<and> total_decay_rate 12 = 9 / 100
   \<and> decayed_reputation (simulate_reputation_decay_resistance 10000 12) = 9100
   \<and> 10000 * MIN_PROTECTION_RATE
       < decayed_reputation (simulate_reputation_decay_resistance 10000 12)"
  by (simp add: decayed_eq total_decay_rate_def decay_periods_def decay_defs)

section \<open>The cartel: power and cost\<close>

lemma valid_members_Nil [simp]: "valid_members xs []"
  by (simp add: valid_members_def)

lemma valid_members_Cons [simp]:
  "valid_members xs (i # rest) = (0 \<le> i \<and> i < int (length xs) \<and> valid_members xs rest)"
  by (simp add: valid_members_def)

lemma py_index_valid: "0 \<le> i \<Longrightarrow> i < int (length xs) \<Longrightarrow> py_index xs i = Inr (xs ! nat i)"
  by (simp add: py_index_def)

lemma sum_at_valid:
  "valid_members xs members \<Longrightarrow> sum_at xs members = Inr (\<Sum>i\<leftarrow>members. xs ! nat i)"
  by (induction members) (simp_all add: py_index_valid)

lemma member_costs_valid:
  "valid_members (reputations c) members \<Longrightarrow>
   member_costs c len members =
     Inr (map (\<lambda>i. market_value c * (25 / 1000) * 12
                   + reputations c ! nat i * (10 / 100) * (30 / 100)
                   + real len * (1 / 10)) members)"
  by (induction members) (simp_all add: py_index_valid member_cost_def cartel_defs)

text \<open>
  C5, as stated: the cost of a coalition is the sum of expected earnings and reputation
  risk of its members plus the overhead on that sum.  For two members with reputation
  100 and a market value of 100 that is 69.30; the source returns 69.72.
\<close>

theorem attack_cost_counterexample:
  "calculate_attack_cost
     \<lparr>n_legislators = 2, scores = [100, 100], reputations = [100, 100], market_value = 100\<rparr>
     [0, 1] = Inr (6972 / 100)
   \<and> spec_attack_cost
     \<lparr>n_legislators = 2, scores = [100, 100], reputations = [100, 100], market_value = 100\<rparr>
     [0, 1] = 6930 / 100
   \<and> calculate_attack_cost
     \<lparr>n_legislators = 2, scores = [100, 100], reputations = [100, 100], market_value = 100\<rparr>
     [0, 1]
     \<noteq> Inr (spec_attack_cost
         \<lparr>n_legislators = 2, scores = [100, 100], reputations = [100, 100], market_value = 100\<rparr>
         [0, 1])"
  by (simp add: calculate_attack_cost_def member_cost_def py_index_def cartel_defs
      spec_attack_cost_def)

text \<open>
  C5, amended. For a coalition of valid members the cost is \<open>base + overhead\<close>, where
  \<open>base\<close> sums, over the members, the expected earnings \<open>market_value * 0.025 * 12\<close>,
  the reputation risk \<open>reputation * 0.10 * 0.30\<close> and a coordination cost of 0.1 per
  member of the coalition, and \<open>overhead = base * (size - 1) * 0.05\<close>.  So the cost of
  a member does depend on the size of the coalition.
\<close>

theorem attack_cost_formula:
  assumes "valid_members (reputations c) members"
  shows "calculate_attack_cost c members =
     Inr (let base_cost =
                (\<Sum>i\<leftarrow>members. market_value c * (25 / 1000) * 12
                              + reputations c ! nat i * (10 / 100) * (30 / 100)
                              + real (length members) * (1 / 10))
          in base_cost + base_cost * (real (length members) - 1) * (5 / 100))"
  using assms by (simp add: calculate_attack_cost_def member_costs_valid Let_def)

theorem attack_cost_formula_witness:
  "valid_members
     (reputations
        \<lparr>n_legislators = 3, scores = [10, 20, 30], reputations = [100, 200, 300],
         market_value = 1000\<rparr>) [0, 2]
   \<and> calculate_attack_cost
        \<lparr>n_legislators = 3, scores = [10, 20, 30], reputations = [100, 200, 300],
         market_value = 1000\<rparr> [0, 2] = Inr (64302 / 100)"
  using attack_cost_formula
    [of "\<lparr>n_legislators = 3, scores = [10, 20, 30], reputations = [100, 200, 300],
          market_value = 1000\<rparr>" "[0, 2]"]
  by simp

section \<open>The empty population\<close>

text \<open>
  C6, as stated: on an empty population the optimiser returns a result and raises
  nothing.  In the source the power of the empty cartel is computed last, and the
  division by the zero score total raises.
\<close>

theorem empty_population_counterexample:
  "find_minimum_cartel Map.empty
     \<lparr>n_legislators = 0, scores = [], reputations = [], market_value = 1000\<rparr>
   = Inl ZeroDivisionError"
  by (simp add: find_minimum_cartel_def build_problem_def calculate_cartel_power_def
      py_range_def)

text \<open>
  C6, amended. On an empty population the exact enumeration returns the empty list of
  cartels, and \<^verbatim>\<open>find_minimum_cartel\<close> raises \<^verbatim>\<open>ZeroDivisionError\<close> whatever the
  solver reports.  The power computation has no check of its denominators: for valid
  members, a zero total of the scores or of the reputations raises
  \<^verbatim>\<open>ZeroDivisionError\<close>.
\<close>

theorem empty_population:
  "brute_force_cartels
     \<lparr>n_legislators = 0, scores = [], reputations = [], market_value = mv\<rparr> = Inr []
   \<and> find_minimum_cartel sol
       \<lparr>n_legislators = 0, scores = [], reputations = [], market_value = mv\<rparr>
     = Inl ZeroDivisionError
   \<and> ((sum_list (scores c) = 0 \<or> sum_list (reputations c) = 0)
        \<and> valid_members (scores c) members \<and> valid_members (reputations c) members
      \<longrightarrow> calculate_cartel_power c members = Inl ZeroDivisionError)"
  by (auto simp add: find_minimum_cartel_def build_problem_def calculate_cartel_power_def
      brute_force_cartels_def py_range_def MIN_LEGISLATORS_def sum_at_valid)

theorem empty_population_witness:
  "(sum_list (scores
       \<lparr>n_legislators = 2, scores = [0, 0], reputations = [5, 7], market_value = 10\<rparr>) = 0
    \<or> sum_list (reputations
       \<lparr>n_legislators = 2, scores = [0, 0], reputations = [5, 7], market_value = 10\<rparr>) = 0)
   \<and> valid_members (scores
       \<lparr>n_legislators = 2, scores = [0, 0], reputations = [5, 7], market_value = 10\<rparr>) [1]
   \<and> valid_members (reputations
       \<lparr>n_legislators = 2, scores = [0, 0], reputations = [5, 7], market_value = 10\<rparr>) [1]
   \<and> calculate_cartel_power
       \<lparr>n_legislators = 2, scores = [0, 0], reputations = [5, 7], market_value = 10\<rparr> [1]
     = Inl ZeroDivisionError
   \<and> brute_force_cartels
       \<lparr>n_legislators = 0, scores = [], reputations = [], market_value = 10\<rparr> = Inr []"
  using empty_population
    [of 10 Map.empty
        "\<lparr>n_legislators = 2, scores = [0, 0], reputations = [5, 7], market_value = 10\<rparr>" "[1]"]
  by simp

section \<open>The 0/1 programme against the exact enumeration\<close>

lemma combinations_elem:
  "ys \<in> set (combinations xs k) \<Longrightarrow> length ys = k \<and> set ys \<subseteq> set xs \<and> (distinct xs \<longrightarrow> distinct ys)"
proof (induction xs k arbitrary: ys rule: combinations.induct)
  case (1 xs)
  then show ?case by simp
next
  case (2 k)
  then show ?case by simp
next
  case (3 x xs k)
  from "3.prems" consider (take) zs where "ys = x # zs" "zs \<in> set (combinations xs k)"
    | (skip) "ys \<in> set (combinations xs (Suc k))"
    by auto
  then show ?case
  proof cases
    case take
    with "3.IH"(1) [of zs] show ?thesis by auto
  next
    case skip
    with "3.IH"(2) [of ys] show ?thesis by auto
  qed
qed

lemma lp_value_indicator:
  assumes len: "length coeffs = k" and d: "distinct members" and v: "valid_members coeffs members"
  shows "lp_value coeffs (indicator_of members k) = (\<Sum>i\<leftarrow>members. coeffs ! nat i)"
proof -
  have "lp_value coeffs (indicator_of members k)
        = (\<Sum>i = 0..<k. coeffs ! i * (if int i \<in> set members then 1 else 0))"
    using len by (simp add: lp_value_def indicator_of_def sum_list_sum_nth)
  also have "\<dots> = (\<Sum>i \<in> {i. i < k \<and> int i \<in> set members}. coeffs ! i)"
    by (intro sum.mono_neutral_cong_right) auto
  also have "\<dots> = (\<Sum>j \<in> set members. coeffs ! nat j)"
  proof (rule sum.reindex_bij_witness [of _ "\<lambda>j. nat j" "\<lambda>i. int i"])
  qed (use v len in \<open>auto simp: valid_members_def list_all_iff\<close>)
  also have "\<dots> = (\<Sum>i\<leftarrow>members. coeffs ! nat i)"
    using d by (simp add: sum_list_distinct_conv_sum_set)
  finally show ?thesis .
qed

lemma py_range_0: "py_range 0 n = map int [0..<nat n]"
  by (simp add: py_range_def)

lemma lp_costs_valid:
  "\<forall>i\<in>set ks. i < length (reputations c) \<Longrightarrow>
   lp_costs c (map int ks) =
     Inr (map (\<lambda>i. market_value c * (25 / 1000) * 12
                   + reputations c ! i * (10 / 100) * (30 / 100)) ks)"
  by (induction ks) (simp_all add: py_index_valid cartel_defs)

lemma lp_terms_valid:
  "tot \<noteq> 0 \<Longrightarrow> \<forall>i\<in>set ks. i < length xs \<Longrightarrow>
   lp_terms w xs tot (map int ks) = Inr (map (\<lambda>i. w * xs ! i / tot) ks)"
  by (induction ks) (simp_all add: py_index_valid)

lemma build_problem_ok:
  assumes "population_ok c" and "sum_list (scores c) \<noteq> 0" and "sum_list (reputations c) \<noteq> 0"
  shows "build_problem c =
     Inr \<lparr>lp_objective =
            map (\<lambda>i. market_value c * (25 / 1000) * 12
                     + reputations c ! i * (10 / 100) * (30 / 100)) [0..<nat (n_legislators c)],
          lp_score_terms =
            map (\<lambda>i. (6 / 10) * scores c ! i / sum_list (scores c)) [0..<nat (n_legislators c)],
          lp_rep_terms =
            map (\<lambda>i. (4 / 10) * reputations c ! i / sum_list (reputations c))
              [0..<nat (n_legislators c)],
          lp_rhs = OVERRIDE_THRESHOLD\<rparr>"
  using assms
  by (simp add: build_problem_def py_range_0 lp_costs_valid lp_terms_valid population_ok_def Let_def)

lemma cartel_power_valid:
  assumes "valid_members (scores c) members" and "valid_members (reputations c) members"
    and "sum_list (scores c) \<noteq> 0" and "sum_list (reputations c) \<noteq> 0"
  shows "calculate_cartel_power c members =
     Inr \<lparr>cartel_size = length members,
          voting_power = (6 / 10) * (\<Sum>i\<leftarrow>members. scores c ! nat i) / sum_list (scores c)
                       + (4 / 10) * (\<Sum>i\<leftarrow>members. reputations c ! nat i) / sum_list (reputations c),
          can_override = ((6 / 10) * (\<Sum>i\<leftarrow>members. scores c ! nat i) / sum_list (scores c)
                       + (4 / 10) * (\<Sum>i\<leftarrow>members. reputations c ! nat i) / sum_list (reputations c)
                       \<ge> OVERRIDE_THRESHOLD),
          score_share = (\<Sum>i\<leftarrow>members. scores c ! nat i) / sum_list (scores c),
          rep_share = (\<Sum>i\<leftarrow>members. reputations c ! nat i) / sum_list (reputations c)\<rparr>"
  using assms by (simp add: calculate_cartel_power_def sum_at_valid Let_def)

lemma cartel_power_Inr_totals:
  assumes "calculate_cartel_power c members = Inr pd"
  shows "sum_list (scores c) \<noteq> 0 \<and> sum_list (reputations c) \<noteq> 0"
  using assms
  by (auto simp add: calculate_cartel_power_def Let_def split: sum.splits if_splits)

lemma bf_cartels_elem:
  "bf_cartels c sz cs = Inr rs \<Longrightarrow> r \<in> set rs \<Longrightarrow>
   bf_members r \<in> set cs
   \<and> (\<exists>pd. calculate_cartel_power c (bf_members r) = Inr pd \<and> can_override pd)
   \<and> calculate_attack_cost c (bf_members r) = Inr (bf_cost r)"
proof (induction cs arbitrary: rs)
  case Nil
  then show ?case by simp
next
  case (Cons a cs)
  then show ?case
    by (fastforce split: sum.splits if_splits)
qed

lemma bf_sizes_elem:
  "bf_sizes c szs = Inr rs \<Longrightarrow> r \<in> set rs \<Longrightarrow>
   (\<exists>sz\<in>set szs. bf_members r \<in> set (combinations (py_range 0 (n_legislators c)) (nat sz)))
   \<and> (\<exists>pd. calculate_cartel_power c (bf_members r) = Inr pd \<and> can_override pd)
   \<and> calculate_attack_cost c (bf_members r) = Inr (bf_cost r)"
proof (induction szs arbitrary: rs)
  case Nil
  then show ?case by simp
next
  case (Cons sz szs)
  from Cons.prems(1) obtain rs1 rs2
    where 1: "bf_cartels c sz (combinations (py_range 0 (n_legislators c)) (nat sz)) = Inr rs1"
      and 2: "bf_sizes c szs = Inr rs2" and rs: "rs = rs1 @ rs2"
    by (auto split: sum.splits)
  from Cons.prems(2) rs consider "r \<in> set rs1" | "r \<in> set rs2" by auto
  then show ?case
  proof cases
    case 1
    with bf_cartels_elem [OF \<open>bf_cartels c sz _ = Inr rs1\<close>, of r] show ?thesis by auto
  next
    case 2
    with Cons.IH [OF \<open>bf_sizes c szs = Inr rs2\<close>] show ?thesis by auto
  qed
qed

lemma brute_force_elem:
  assumes "brute_force_cartels c = Inr results" and "r \<in> set results"
  shows "(\<exists>k. bf_members r \<in> set (combinations (py_range 0 (n_legislators c)) k))
   \<and> (\<exists>pd. calculate_cartel_power c (bf_members r) = Inr pd \<and> can_override pd)
   \<and> calculate_attack_cost c (bf_members r) = Inr (bf_cost r)"
proof -
  from assms obtain rs
    where "bf_sizes c (py_range MIN_LEGISLATORS (n_legislators c + 1)) = Inr rs" "r \<in> set rs"
    by (auto simp: brute_force_cartels_def split: sum.splits)
  from bf_sizes_elem [OF this] show ?thesis by blast
qed

lemma combination_members:
  assumes "members \<in> set (combinations (py_range 0 n) k)" and "length xs = nat n"
  shows "valid_members xs members \<and> distinct members"
proof -
  from combinations_elem [OF assms(1)]
  have sub: "set members \<subseteq> set (py_range 0 n)" and d: "distinct members"
    by (auto simp: py_range_0 distinct_map)
  from sub assms(2) have "valid_members xs members"
    by (auto simp: valid_members_def list_all_iff py_range_0)
  with d show ?thesis by simp
qed

lemma calculate_attack_cost_valid:
  assumes "valid_members (reputations c) members"
  shows "calculate_attack_cost c members =
     Inr (let base_cost =
                (\<Sum>i\<leftarrow>members. market_value c * (25 / 1000) * 12
                              + reputations c ! nat i * (10 / 100) * (30 / 100)
                              + real (length members) * (1 / 10))
          in base_cost + base_cost * (real (length members) - 1) * (5 / 100))"
  using assms by (simp add: calculate_attack_cost_def member_costs_valid Let_def)

lemma valid_members_nth:
  "valid_members xs members \<Longrightarrow> i \<in> set members \<Longrightarrow> xs ! nat i \<in> set xs"
  by (auto simp: valid_members_def list_all_iff)

lemma attack_cost_lower_bound:
  assumes v: "valid_members (reputations c) members"
    and mv: "0 \<le> market_value c" and reps: "\<forall>r\<in>set (reputations c). 0 \<le> r"
    and cost: "calculate_attack_cost c members = Inr a"
  shows "(\<Sum>i\<leftarrow>members. lp_cost_of c (nat i)) \<le> a"
proof -
  let ?k = "real (length members)"
  let ?lp = "\<Sum>i\<leftarrow>members. lp_cost_of c (nat i)"
  let ?base = "\<Sum>i\<leftarrow>members. lp_cost_of c (nat i) + ?k * (1 / 10)"
  have a: "a = ?base + ?base * (?k - 1) * (5 / 100)"
    using cost calculate_attack_cost_valid [OF v] by (simp add: lp_cost_of_def Let_def)
  have nonneg: "0 \<le> lp_cost_of c (nat i)" if "i \<in> set members" for i
    using valid_members_nth [OF v that] mv reps by (simp add: lp_cost_of_def)
  have lp0: "0 \<le> ?lp"
    by (rule sum_list_nonneg) (auto simp: nonneg)
  have le: "?lp \<le> ?base"
    by (rule sum_list_mono) simp
  show ?thesis
  proof (cases members)
    case Nil
    with a show ?thesis by simp
  next
    case (Cons m ms)
    then have "0 \<le> ?k - 1" by simp
    moreover have "0 \<le> ?base" using lp0 le by linarith
    ultimately have "0 \<le> ?base * (?k - 1) * (5 / 100)" by simp
    with le a show ?thesis by linarith
  qed
qed

lemma sum_list_weighted:
  fixes w tot :: real
  shows "(\<Sum>i\<leftarrow>ms. w * f i / tot) = w * (\<Sum>i\<leftarrow>ms. f i) / tot"
  by (induction ms) (simp_all add: distrib_left add_divide_distrib)

lemma lp_value_indicator_map:
  assumes d: "distinct members" and v: "valid_members (map f [0..<k]) members"
  shows "lp_value (map f [0..<k]) (indicator_of members k) = (\<Sum>i\<leftarrow>members. f (nat i))"
proof -
  have "lp_value (map f [0..<k]) (indicator_of members k)
        = (\<Sum>i\<leftarrow>members. map f [0..<k] ! nat i)"
    using d v by (intro lp_value_indicator) simp_all
  also have "\<dots> = (\<Sum>i\<leftarrow>members. f (nat i))"
    using v by (intro arg_cong [where f = sum_list] map_cong)
      (auto simp: valid_members_def list_all_iff)
  finally show ?thesis .
qed

lemma valid_members_length:
  "length xs = length ys \<Longrightarrow> valid_members xs members = valid_members ys members"
  by (simp add: valid_members_def)

lemma indicator_binary: "indicator_of members k \<in> set (binary_assignments k)"
  by (auto simp: binary_assignments_def set_n_lists indicator_of_def)

lemma select_members_binary:
  "\<forall>i\<in>set ks. sol i = Some 0 \<or> sol i = Some 1 \<Longrightarrow>
   select_members sol ks = Inr (map int (filter (\<lambda>i. sol i = Some 1) ks))"
  by (induction ks) auto

lemma var_values_indicator:
  assumes "\<forall>i\<in>set [0..<k]. sol i = Some 0 \<or> sol i = Some 1"
  shows "var_values sol k = indicator_of (chosen sol k) k"
  unfolding var_values_def indicator_of_def chosen_def
proof (intro map_cong refl)
  fix x assume x: "x \<in> set [0..<k]"
  with assms have "sol x = Some 0 \<or> sol x = Some 1" by blast
  then consider "sol x = Some 0" | "sol x = Some 1" by blast
  then show "(case sol x of Some v \<Rightarrow> v | None \<Rightarrow> 0)
      = (if int x \<in> set (map int (filter (\<lambda>i. sol i = Some 1) [0..<k])) then 1 else 0)"
    using x by cases auto
qed

lemma chosen_valid: "length xs = k \<Longrightarrow> valid_members xs (chosen sol k) \<and> distinct (chosen sol k)"
  by (auto simp: chosen_def valid_members_def list_all_iff distinct_map)

lemma problem_on_indicator:
  assumes pop: "population_ok c"
    and T: "sum_list (scores c) \<noteq> 0" and R: "sum_list (reputations c) \<noteq> 0"
    and prob: "build_problem c = Inr prob"
    and d: "distinct members" and v: "valid_members (scores c) members"
  shows "lp_value (lp_objective prob) (indicator_of members (nat (n_legislators c)))
           = (\<Sum>i\<leftarrow>members. lp_cost_of c (nat i))"
    and "lp_feasible prob (indicator_of members (nat (n_legislators c))) =
           ((6 / 10) * (\<Sum>i\<leftarrow>members. scores c ! nat i) / sum_list (scores c)
            + (4 / 10) * (\<Sum>i\<leftarrow>members. reputations c ! nat i) / sum_list (reputations c)
            \<ge> OVERRIDE_THRESHOLD)"
proof -
  let ?N = "nat (n_legislators c)"
  have v': "valid_members (map f [0..<?N]) members" for f :: "nat \<Rightarrow> real"
    using v pop by (simp add: valid_members_def population_ok_def)
  note p = prob [unfolded build_problem_ok [OF pop T R], simplified, symmetric]
  show "lp_value (lp_objective prob) (indicator_of members ?N)
           = (\<Sum>i\<leftarrow>members. lp_cost_of c (nat i))"
    by (subst p) (simp add: lp_value_indicator_map [OF d v'] lp_cost_of_def)
  show "lp_feasible prob (indicator_of members ?N) =
           ((6 / 10) * (\<Sum>i\<leftarrow>members. scores c ! nat i) / sum_list (scores c)
            + (4 / 10) * (\<Sum>i\<leftarrow>members. reputations c ! nat i) / sum_list (reputations c)
            \<ge> OVERRIDE_THRESHOLD)"
    by (subst p) (simp add: lp_feasible_def lp_value_indicator_map [OF d v'] sum_list_weighted)
qed

text \<open>
  C3. Take a well-formed population with non-negative reputations and a non-negative
  market value, on which the exact enumeration returns at least one cartel, and a solver
  that meets its contract.  Then the problem built by \<^verbatim>\<open>find_minimum_cartel\<close> is
  feasible, \<^verbatim>\<open>find_minimum_cartel\<close> returns a cartel that can override, and its
  total cost is at most the cost of every cartel of the enumeration, so at most the
  cost of the cheapest one.
\<close>

theorem lp_cost_le_brute_force:
  assumes pop: "population_ok c"
    and mv: "0 \<le> market_value c" and reps: "\<forall>r\<in>set (reputations c). 0 \<le> r"
    and bf: "brute_force_cartels c = Inr results" and ne: "results \<noteq> []"
    and solver: "solver_contract c sol"
  shows "\<exists>prob res. build_problem c = Inr prob
      \<and> list_ex (lp_feasible prob) (binary_assignments (nat (n_legislators c)))
      \<and> find_minimum_cartel sol c = Inr res
      \<and> can_override (lp_power res)
      \<and> (\<forall>r\<in>set results. total_cost res \<le> bf_cost r)"
proof -
  let ?N = "nat (n_legislators c)"
  from ne have "hd results \<in> set results" by simp
  then obtain r0 where r0: "r0 \<in> set results" ..
  from brute_force_elem [OF bf r0] obtain pd0
    where "calculate_cartel_power c (bf_members r0) = Inr pd0" by blast
  from cartel_power_Inr_totals [OF this]
  have T: "sum_list (scores c) \<noteq> 0" and R: "sum_list (reputations c) \<noteq> 0" by simp_all
  obtain prob where prob: "build_problem c = Inr prob"
    using build_problem_ok [OF pop T R] by blast
  have len: "length (lp_objective prob) = ?N"
    using prob [unfolded build_problem_ok [OF pop T R]] by auto
  have ls: "length (scores c) = ?N" and lr: "length (reputations c) = ?N"
    using pop by (simp_all add: population_ok_def)
  \<comment> \<open>every cartel of the enumeration is a feasible assignment that costs no more\<close>
  have each: "lp_feasible prob (indicator_of (bf_members r) ?N)
      \<and> lp_value (lp_objective prob) (indicator_of (bf_members r) ?N) \<le> bf_cost r"
    if r: "r \<in> set results" for r
  proof -
    from brute_force_elem [OF bf r] obtain k pd
      where comb: "bf_members r \<in> set (combinations (py_range 0 (n_legislators c)) k)"
        and pd: "calculate_cartel_power c (bf_members r) = Inr pd" "can_override pd"
        and cost: "calculate_attack_cost c (bf_members r) = Inr (bf_cost r)"
      by blast
    from combination_members [OF comb ls] combination_members [OF comb lr]
    have vs: "valid_members (scores c) (bf_members r)"
      and vr: "valid_members (reputations c) (bf_members r)"
      and d: "distinct (bf_members r)" by simp_all
    from pd cartel_power_valid [OF vs vr T R]
    have "lp_feasible prob (indicator_of (bf_members r) ?N)"
      by (auto simp: problem_on_indicator(2) [OF pop T R prob d vs])
    moreover have "lp_value (lp_objective prob) (indicator_of (bf_members r) ?N) \<le> bf_cost r"
      using attack_cost_lower_bound [OF vr mv reps cost]
      by (simp add: problem_on_indicator(1) [OF pop T R prob d vs])
    ultimately show ?thesis by simp
  qed
  from each [OF r0] have ex: "list_ex (lp_feasible prob) (binary_assignments ?N)"
    using indicator_binary [of "bf_members r0" ?N] by (auto simp: list_ex_iff)
  with solver prob len have opt: "lp_optimal prob sol"
    by (simp add: solver_contract_def)
  then have bin: "\<forall>i\<in>set [0..<?N]. sol i = Some 0 \<or> sol i = Some 1"
    and feas: "lp_feasible prob (var_values sol ?N)"
    and best: "\<And>ys. ys \<in> set (binary_assignments ?N) \<Longrightarrow> lp_feasible prob ys \<Longrightarrow>
         lp_value (lp_objective prob) (var_values sol ?N) \<le> lp_value (lp_objective prob) ys"
    by (auto simp: lp_optimal_def Let_def len list_all_iff)
  let ?ms = "chosen sol ?N"
  have sel: "select_members sol [0..<?N] = Inr ?ms"
    using select_members_binary [OF bin] by (simp add: chosen_def)
  have vs: "valid_members (scores c) ?ms" and vr: "valid_members (reputations c) ?ms"
    and d: "distinct ?ms"
    using chosen_valid [OF ls, of sol] chosen_valid [OF lr, of sol] by simp_all
  note pw = cartel_power_valid [OF vs vr T R]
  define res where "res = \<lparr>cartel_members = ?ms, lp_cartel_size = length ?ms,
     total_cost = lp_value (lp_objective prob) (var_values sol ?N),
     lp_power = (case calculate_cartel_power c ?ms of Inr pd \<Rightarrow> pd)\<rparr>"
  have fm: "find_minimum_cartel sol c = Inr res"
    by (simp add: find_minimum_cartel_def prob sel pw res_def)
  have "can_override (lp_power res)"
    using feas
    by (simp add: res_def pw var_values_indicator [OF bin]
        problem_on_indicator(2) [OF pop T R prob d vs])
  moreover have "\<forall>r\<in>set results. total_cost res \<le> bf_cost r"
  proof
    fix r assume r: "r \<in> set results"
    from each [OF r] best [OF indicator_binary]
    show "total_cost res \<le> bf_cost r" by (fastforce simp: res_def)
  qed
  ultimately show ?thesis using prob ex fm by blast
qed

section \<open>Seven legislators with equal scores and reputations\<close>

lemma uniform_sum:
  assumes "valid_members (replicate k (x::real)) members"
  shows "(\<Sum>i\<leftarrow>members. replicate k x ! nat i) = real (length members) * x"
proof -
  have eq: "map (\<lambda>i. replicate k x ! nat i) members = map (\<lambda>i. x) members"
    using assms by (intro map_cong) (auto simp: valid_members_def list_all_iff)
  show ?thesis unfolding eq by (simp add: sum_list_triv)
qed

lemma override_iff_five: "(6666 / 10000 \<le> real k / 7) = (5 \<le> k)"
proof (cases "5 \<le> k")
  case True
  then have "5 \<le> real k" by simp
  with True show ?thesis by simp
next
  case False
  then have "k \<le> 4" by simp
  then have "real k \<le> 4" by (metis of_nat_le_iff of_nat_numeral)
  with False show ?thesis by simp
qed

lemma uniform_ok: "population_ok (uniform_seven mv)"
  by (simp add: population_ok_def uniform_seven_def)

lemma uniform_totals:
  "sum_list (scores (uniform_seven mv)) = 700" "sum_list (reputations (uniform_seven mv)) = 700"
  by (simp_all add: uniform_seven_def sum_list_replicate)

lemma uniform_power:
  assumes "valid_members (scores (uniform_seven mv)) members"
  shows "calculate_cartel_power (uniform_seven mv) members =
     Inr \<lparr>cartel_size = length members,
          voting_power = real (length members) / 7,
          can_override = (5 \<le> length members),
          score_share = real (length members) / 7,
          rep_share = real (length members) / 7\<rparr>"
proof -
  from assms have vs: "valid_members (replicate 7 (100::real)) members"
    by (simp add: uniform_seven_def)
  have vr: "valid_members (reputations (uniform_seven mv)) members"
    using vs by (simp add: uniform_seven_def)
  have s: "(\<Sum>i\<leftarrow>members. scores (uniform_seven mv) ! nat i) = real (length members) * 100"
    and r: "(\<Sum>i\<leftarrow>members. reputations (uniform_seven mv) ! nat i) = real (length members) * 100"
    using uniform_sum [OF vs] by (simp_all add: uniform_seven_def)
  show ?thesis
    using cartel_power_valid [OF assms vr] override_iff_five [of "length members"]
    by (simp add: uniform_totals s r cartel_defs)
qed

lemma uniform_cost_of: "i < 7 \<Longrightarrow> lp_cost_of (uniform_seven mv) i = mv * (3 / 10) + 3"
  by (simp add: lp_cost_of_def uniform_seven_def)

lemma uniform_problem:
  "\<exists>prob. build_problem (uniform_seven mv) = Inr prob \<and> length (lp_objective prob) = 7"
proof -
  have T: "sum_list (scores (uniform_seven mv)) \<noteq> 0"
    and R: "sum_list (reputations (uniform_seven mv)) \<noteq> 0"
    by (simp_all add: uniform_totals)
  have n: "nat (n_legislators (uniform_seven mv)) = 7" by (simp add: uniform_seven_def)
  from build_problem_ok [OF uniform_ok T R] show ?thesis by (simp add: n)
qed

lemma uniform_on_indicator:
  assumes prob: "build_problem (uniform_seven mv) = Inr prob"
    and d: "distinct members" and v: "valid_members (scores (uniform_seven mv)) members"
  shows "lp_value (lp_objective prob) (indicator_of members 7)
           = real (length members) * (mv * (3 / 10) + 3)"
    and "lp_feasible prob (indicator_of members 7) = (5 \<le> length members)"
proof -
  have T: "sum_list (scores (uniform_seven mv)) \<noteq> 0"
    and R: "sum_list (reputations (uniform_seven mv)) \<noteq> 0"
    by (simp_all add: uniform_totals)
  have n: "nat (n_legislators (uniform_seven mv)) = 7" by (simp add: uniform_seven_def)
  note on = problem_on_indicator [OF uniform_ok T R prob d v, unfolded n]
  have eq: "map (\<lambda>i. lp_cost_of (uniform_seven mv) (nat i)) members
        = map (\<lambda>i. mv * (3 / 10) + 3) members"
    using v by (intro map_cong refl uniform_cost_of)
      (auto simp: valid_members_def list_all_iff uniform_seven_def)
  show "lp_value (lp_objective prob) (indicator_of members 7)
           = real (length members) * (mv * (3 / 10) + 3)"
    unfolding on(1) eq by (simp add: sum_list_triv)
  from uniform_power [OF v]
  have "can_override (case calculate_cartel_power (uniform_seven mv) members of Inr pd \<Rightarrow> pd)
        = (5 \<le> length members)" by simp
  moreover have vr: "valid_members (reputations (uniform_seven mv)) members"
    using v by (simp add: uniform_seven_def)
  ultimately show "lp_feasible prob (indicator_of members 7) = (5 \<le> length members)"
    using cartel_power_valid [OF v vr T R] by (simp add: on(2))
qed

lemma support_valid:
  "length xs = length ys \<Longrightarrow> valid_members xs (support ys) \<and> distinct (support ys)"
  by (auto simp: support_def valid_members_def list_all_iff distinct_map)

lemma binary_is_indicator:
  assumes "ys \<in> set (binary_assignments k)"
  shows "ys = indicator_of (support ys) k"
proof (rule nth_equalityI)
  from assms have len: "length ys = k" and bin: "set ys \<subseteq> {0, 1}"
    by (auto simp: binary_assignments_def set_n_lists)
  show "length ys = length (indicator_of (support ys) k)"
    using len by (simp add: indicator_of_def)
  fix i assume i: "i < length ys"
  then have "ys ! i \<in> {0, 1}" using bin nth_mem by blast
  then show "ys ! i = indicator_of (support ys) k ! i"
    using i len by (auto simp: indicator_of_def support_def)
qed

lemma binary_length: "ys \<in> set (binary_assignments k) \<Longrightarrow> length ys = k"
  by (simp add: binary_assignments_def set_n_lists)

lemma first_five_valid:
  "valid_members (scores (uniform_seven mv)) [0, 1, 2, 3, 4] \<and> distinct [0, 1, 2, 3, 4 :: int]"
  by (simp add: uniform_seven_def)

lemma uniform_feasible:
  assumes prob: "build_problem (uniform_seven mv) = Inr prob"
  shows "list_ex (lp_feasible prob) (binary_assignments (length (lp_objective prob)))"
proof -
  from uniform_problem [of mv] prob have len: "length (lp_objective prob) = 7" by auto
  have "lp_feasible prob (indicator_of [0, 1, 2, 3, 4] 7)"
    using first_five_valid [of mv] by (simp add: uniform_on_indicator(2) [OF prob])
  with indicator_binary [of "[0, 1, 2, 3, 4]" 7] show ?thesis
    unfolding len list_ex_iff by blast
qed

lemma uniform_chosen:
  "valid_members (scores (uniform_seven mv)) (chosen sol 7) \<and> distinct (chosen sol 7)"
  by (rule chosen_valid) (simp add: uniform_seven_def)

lemma uniform_optimal_size:
  assumes prob: "build_problem (uniform_seven mv) = Inr prob"
    and pos: "0 < mv * (3 / 10) + 3"
    and opt: "lp_optimal prob sol"
  shows "(\<forall>i\<in>set [0..<7]. sol i = Some 0 \<or> sol i = Some 1) \<and> length (chosen sol 7) = 5"
proof -
  from uniform_problem [of mv] prob have len: "length (lp_objective prob) = 7" by auto
  from opt have bin: "\<forall>i\<in>set [0..<7]. sol i = Some 0 \<or> sol i = Some 1"
    and feas: "lp_feasible prob (var_values sol 7)"
    and best: "\<And>ys. ys \<in> set (binary_assignments 7) \<Longrightarrow> lp_feasible prob ys \<Longrightarrow>
         lp_value (lp_objective prob) (var_values sol 7) \<le> lp_value (lp_objective prob) ys"
    by (auto simp: lp_optimal_def Let_def len list_all_iff)
  note ch = uniform_chosen [of mv sol]
  have vv: "var_values sol 7 = indicator_of (chosen sol 7) 7"
    by (rule var_values_indicator [OF bin])
  from feas have ge: "5 \<le> length (chosen sol 7)"
    using ch by (simp add: vv uniform_on_indicator(2) [OF prob])
  have five: "lp_feasible prob (indicator_of [0, 1, 2, 3, 4] 7)"
    using first_five_valid [of mv] by (simp add: uniform_on_indicator(2) [OF prob])
  from best [OF indicator_binary five]
  have "real (length (chosen sol 7)) * (mv * (3 / 10) + 3) \<le> 5 * (mv * (3 / 10) + 3)"
    using ch first_five_valid [of mv] by (simp add: vv uniform_on_indicator(1) [OF prob])
  with pos have "real (length (chosen sol 7)) \<le> 5"
    by (simp only: mult_le_cancel_right_pos)
  then have "length (chosen sol 7) \<le> 5" by linarith
  with ge bin show ?thesis by simp
qed

lemma uniform_optimal_intro:
  assumes prob: "build_problem (uniform_seven mv) = Inr prob"
    and pos: "0 \<le> mv * (3 / 10) + 3"
    and bin: "\<forall>i\<in>set [0..<7]. sol i = Some 0 \<or> sol i = Some 1"
    and five: "length (chosen sol 7) = 5"
  shows "lp_optimal prob sol"
proof -
  from uniform_problem [of mv] prob have len: "length (lp_objective prob) = 7" by auto
  note ch = uniform_chosen [of mv sol]
  have vv: "var_values sol 7 = indicator_of (chosen sol 7) 7"
    by (rule var_values_indicator [OF bin])
  have feas: "lp_feasible prob (var_values sol 7)"
    using ch five by (simp add: vv uniform_on_indicator(2) [OF prob])
  have best: "lp_value (lp_objective prob) (var_values sol 7) \<le> lp_value (lp_objective prob) ys"
    if ys: "ys \<in> set (binary_assignments 7)" and f: "lp_feasible prob ys" for ys
  proof -
    have sv: "valid_members (scores (uniform_seven mv)) (support ys)" "distinct (support ys)"
      using support_valid [of "scores (uniform_seven mv)" ys] binary_length [OF ys]
      by (simp_all add: uniform_seven_def)
    have ind: "ys = indicator_of (support ys) 7" by (rule binary_is_indicator [OF ys])
    from f have "5 \<le> length (support ys)"
      by (subst (asm) ind) (use sv in \<open>simp add: uniform_on_indicator(2) [OF prob]\<close>)
    then have "5 * (mv * (3 / 10) + 3) \<le> real (length (support ys)) * (mv * (3 / 10) + 3)"
      using pos by (intro mult_right_mono) simp_all
    moreover have "lp_value (lp_objective prob) ys
                   = real (length (support ys)) * (mv * (3 / 10) + 3)"
      by (subst ind) (use sv in \<open>simp add: uniform_on_indicator(1) [OF prob]\<close>)
    moreover have "lp_value (lp_objective prob) (var_values sol 7) = 5 * (mv * (3 / 10) + 3)"
      using ch five by (simp add: vv uniform_on_indicator(1) [OF prob])
    ultimately show ?thesis by simp
  qed
  show ?thesis
    using bin feas best by (auto simp: lp_optimal_def Let_def len list_all_iff)
qed

lemma seven_of_seven: "combinations (py_range 0 7) 7 = [[0, 1, 2, 3, 4, 5, 6]]"
  by code_simp

lemma sizes_of_seven: "py_range MIN_LEGISLATORS 8 = [7]"
  unfolding MIN_LEGISLATORS_def by code_simp

lemma all_seven_valid: "valid_members (replicate 7 (100::real)) [0, 1, 2, 3, 4, 5, 6]"
  by simp

lemma uniform_brute_force:
  "brute_force_cartels (uniform_seven mv) =
     Inr [\<lparr>bf_size = 7, bf_members = [0, 1, 2, 3, 4, 5, 6],
           bf_cost = 7 * (mv * (3 / 10) + 3 + 7 / 10) * (13 / 10), bf_power = 1\<rparr>]"
proof -
  have v: "valid_members (scores (uniform_seven mv)) [0, 1, 2, 3, 4, 5, 6]"
    and vr: "valid_members (reputations (uniform_seven mv)) [0, 1, 2, 3, 4, 5, 6]"
    using all_seven_valid by (simp_all add: uniform_seven_def)
  have n: "n_legislators (uniform_seven mv) = 7" by (simp add: uniform_seven_def)
  have cost: "calculate_attack_cost (uniform_seven mv) [0, 1, 2, 3, 4, 5, 6]
              = Inr (7 * (mv * (3 / 10) + 3 + 7 / 10) * (13 / 10))"
    unfolding calculate_attack_cost_valid [OF vr] by (simp add: uniform_seven_def)
  show ?thesis
    by (simp add: brute_force_cartels_def n sizes_of_seven seven_of_seven
        uniform_power [OF v] cost)
qed

lemma uniform_find_minimum:
  assumes pos: "0 < mv * (3 / 10) + 3" and solver: "solver_contract (uniform_seven mv) sol"
  shows "find_minimum_cartel sol (uniform_seven mv) =
     Inr \<lparr>cartel_members = chosen sol 7, lp_cartel_size = 5,
          total_cost = 5 * (mv * (3 / 10) + 3),
          lp_power = \<lparr>cartel_size = 5, voting_power = 5 / 7, can_override = True,
                      score_share = 5 / 7, rep_share = 5 / 7\<rparr>\<rparr>"
proof -
  from uniform_problem [of mv] obtain prob
    where prob: "build_problem (uniform_seven mv) = Inr prob" by blast
  from solver uniform_feasible [OF prob] have opt: "lp_optimal prob sol"
    by (simp add: solver_contract_def prob)
  from uniform_optimal_size [OF prob pos opt]
  have bin: "\<forall>i\<in>set [0..<7]. sol i = Some 0 \<or> sol i = Some 1"
    and five: "length (chosen sol 7) = 5" by simp_all
  note ch = uniform_chosen [of mv sol]
  have n: "nat (n_legislators (uniform_seven mv)) = 7" by (simp add: uniform_seven_def)
  have sel: "select_members sol [0..<7] = Inr (chosen sol 7)"
    using select_members_binary [OF bin] by (simp add: chosen_def)
  have vv: "var_values sol 7 = indicator_of (chosen sol 7) 7"
    by (rule var_values_indicator [OF bin])
  have obj: "lp_value (lp_objective prob) (var_values sol 7) = 5 * (mv * (3 / 10) + 3)"
    using ch five by (simp add: vv uniform_on_indicator(1) [OF prob])
  show ?thesis
    using ch by (simp add: find_minimum_cartel_def prob n sel uniform_power obj five)
qed

lemma brute_force_sorted:
  "brute_force_cartels c = Inr results \<Longrightarrow> sorted (map bf_cost results)"
  by (auto simp: brute_force_cartels_def split: sum.splits)

lemma first_five_chosen:
  "(\<forall>i\<in>set [0..<7]. (if i < 5 then Some (1::real) else Some 0) = Some 0
                      \<or> (if i < 5 then Some (1::real) else Some 0) = Some 1)
   \<and> chosen (\<lambda>i. if i < 5 then Some 1 else Some 0) 7 = [0, 1, 2, 3, 4]"
  unfolding chosen_def by code_simp

lemma first_five_contract:
  assumes "0 \<le> mv * (3 / 10) + 3"
  shows "solver_contract (uniform_seven mv) (\<lambda>i. if i < 5 then Some 1 else Some 0)"
proof -
  from uniform_problem [of mv] obtain prob
    where prob: "build_problem (uniform_seven mv) = Inr prob" by blast
  have "lp_optimal prob (\<lambda>i. if i < 5 then Some 1 else Some 0)"
    using first_five_chosen by (intro uniform_optimal_intro [OF prob assms]) simp_all
  then show ?thesis by (simp add: solver_contract_def prob)
qed

theorem lp_cost_le_brute_force_witness:
  "population_ok (uniform_seven 1000)
   \<and> 0 \<le> market_value (uniform_seven 1000)
   \<and> list_all (\<lambda>r. 0 \<le> r) (reputations (uniform_seven 1000))
   \<and> brute_force_cartels (uniform_seven 1000) =
       Inr [\<lparr>bf_size = 7, bf_members = [0, 1, 2, 3, 4, 5, 6], bf_cost = 276367 / 100,
             bf_power = 1\<rparr>]
   \<and> solver_contract (uniform_seven 1000) (\<lambda>i. if i < 5 then Some 1 else Some 0)
   \<and> (\<exists>res. find_minimum_cartel (\<lambda>i. if i < 5 then Some 1 else Some 0) (uniform_seven 1000)
               = Inr res
            \<and> can_override (lp_power res) \<and> total_cost res \<le> 276367 / 100)"
proof -
  let ?c = "uniform_seven 1000"
  let ?sol = "\<lambda>i::nat. if i < 5 then Some (1::real) else Some 0"
  let ?rs = "[\<lparr>bf_size = 7, bf_members = [0, 1, 2, 3, 4, 5, 6], bf_cost = 276367 / 100,
               bf_power = 1\<rparr>]"
  have h1: "population_ok ?c" by (rule uniform_ok)
  have h2: "0 \<le> market_value ?c" by (simp add: uniform_seven_def)
  have h3: "\<forall>r\<in>set (reputations ?c). 0 \<le> r" by (simp add: uniform_seven_def)
  have h4: "brute_force_cartels ?c = Inr ?rs" by (simp add: uniform_brute_force)
  have h5: "?rs \<noteq> []" by simp
  have h6: "solver_contract ?c ?sol" by (rule first_five_contract) simp
  from lp_cost_le_brute_force [OF h1 h2 h3 h4 h5 h6]
  have "\<exists>res. find_minimum_cartel ?sol ?c = Inr res
            \<and> can_override (lp_power res) \<and> total_cost res \<le> 276367 / 100"
    by auto
  moreover from h3 have "list_all (\<lambda>r. 0 \<le> r) (reputations ?c)"
    by (simp add: list_all_iff)
  ultimately show ?thesis using h1 h2 h4 h6 by blast
qed

text \<open>
  C4, as stated: for seven legislators with scores and reputations 100, both strategies
  return a cheapest cartel of five members.  The exact enumeration starts at cartels of
  \<^verbatim>\<open>MIN_LEGISLATORS = 7\<close> members, so on seven legislators it returns the whole
  population and nothing else.
\<close>

theorem uniform_seven_counterexample:
  "brute_force_cartels (uniform_seven 1000) =
     Inr [\<lparr>bf_size = 7, bf_members = [0, 1, 2, 3, 4, 5, 6], bf_cost = 276367 / 100,
           bf_power = 1\<rparr>]"
  by (simp add: uniform_brute_force)

text \<open>
  C4, amended. For seven legislators with scores and reputations 100, a cartel of
  \<open>k\<close> valid members has power \<open>k / 7\<close> and can override exactly when \<open>5 \<le> k\<close>.
  With a non-negative market value and a solver that meets its contract,
  \<^verbatim>\<open>find_minimum_cartel\<close> returns a cartel of exactly five members that can
  override, at the total cost \<open>5 * (0.3 * market_value + 3)\<close>.  The exact enumeration
  returns its cartels in ascending order of cost.
\<close>

theorem uniform_seven_minimum_cartel:
  "(valid_members (scores (uniform_seven mv)) members \<longrightarrow>
      (\<exists>pd. calculate_cartel_power (uniform_seven mv) members = Inr pd
            \<and> voting_power pd = real (length members) / 7
            \<and> can_override pd = (5 \<le> length members)))
   \<and> (0 \<le> mv \<and> solver_contract (uniform_seven mv) sol \<longrightarrow>
      (\<exists>res. find_minimum_cartel sol (uniform_seven mv) = Inr res
            \<and> lp_cartel_size res = 5 \<and> length (cartel_members res) = 5
            \<and> can_override (lp_power res)
            \<and> total_cost res = 5 * (mv * (3 / 10) + 3)))
   \<and> (brute_force_cartels c = Inr results \<longrightarrow> sorted (map bf_cost results))"
proof (intro conjI impI)
  assume "valid_members (scores (uniform_seven mv)) members"
  from uniform_power [OF this]
  show "\<exists>pd. calculate_cartel_power (uniform_seven mv) members = Inr pd
            \<and> voting_power pd = real (length members) / 7
            \<and> can_override pd = (5 \<le> length members)" by simp
next
  assume a: "0 \<le> mv \<and> solver_contract (uniform_seven mv) sol"
  then have pos: "0 < mv * (3 / 10) + 3" by simp
  from a have bin_len: "length (chosen sol 7) = 5"
    using uniform_problem [of mv] uniform_feasible [of mv] uniform_optimal_size [OF _ pos, of _ sol]
    by (auto simp: solver_contract_def)
  from uniform_find_minimum [OF pos] a bin_len
  show "\<exists>res. find_minimum_cartel sol (uniform_seven mv) = Inr res
            \<and> lp_cartel_size res = 5 \<and> length (cartel_members res) = 5
            \<and> can_override (lp_power res)
            \<and> total_cost res = 5 * (mv * (3 / 10) + 3)" by simp
next
  assume "brute_force_cartels c = Inr results"
  then show "sorted (map bf_cost results)" by (rule brute_force_sorted)
qed

theorem uniform_seven_minimum_cartel_witness:
  "valid_members (scores (uniform_seven 1000)) [1, 2, 4, 5, 6]
   \<and> (\<exists>pd. calculate_cartel_power (uniform_seven 1000) [1, 2, 4, 5, 6] = Inr pd
         \<and> voting_power pd = 5 / 7 \<and> can_override pd)
   \<and> (0::real) \<le> 1000
   \<and> solver_contract (uniform_seven 1000) (\<lambda>i. if i < 5 then Some 1 else Some 0)
   \<and> (\<exists>res. find_minimum_cartel (\<lambda>i. if i < 5 then Some 1 else Some 0) (uniform_seven 1000)
               = Inr res
         \<and> lp_cartel_size res = 5 \<and> total_cost res = 1515)
   \<and> brute_force_cartels (uniform_seven 1000) =
       Inr [\<lparr>bf_size = 7, bf_members = [0, 1, 2, 3, 4, 5, 6], bf_cost = 276367 / 100,
             bf_power = 1\<rparr>]
   \<and> sorted (map bf_cost [\<lparr>bf_size = 7, bf_members = [0, 1, 2, 3, 4, 5, 6],
                            bf_cost = 276367 / 100, bf_power = 1\<rparr>])"
proof -
  have v: "valid_members (scores (uniform_seven 1000)) [1, 2, 4, 5, 6]"
    by (simp add: uniform_seven_def)
  have sc: "solver_contract (uniform_seven 1000) (\<lambda>i. if i < 5 then Some 1 else Some 0)"
    by (rule first_five_contract) simp
  have bf: "brute_force_cartels (uniform_seven 1000) =
       Inr [\<lparr>bf_size = 7, bf_members = [0, 1, 2, 3, 4, 5, 6], bf_cost = 276367 / 100,
             bf_power = 1\<rparr>]"
    by (simp add: uniform_brute_force)
  note th = uniform_seven_minimum_cartel
    [of 1000 "[1, 2, 4, 5, 6]" "\<lambda>i. if i < 5 then Some 1 else Some 0" "uniform_seven 1000"
        "[\<lparr>bf_size = 7, bf_members = [0, 1, 2, 3, 4, 5, 6], bf_cost = 276367 / 100,
           bf_power = 1\<rparr>]"]
  from th v have p1: "\<exists>pd. calculate_cartel_power (uniform_seven 1000) [1, 2, 4, 5, 6] = Inr pd
         \<and> voting_power pd = 5 / 7 \<and> can_override pd"
    by simp
  from th sc have p2: "\<exists>res. find_minimum_cartel (\<lambda>i. if i < 5 then Some 1 else Some 0)
               (uniform_seven 1000) = Inr res
         \<and> lp_cartel_size res = 5 \<and> total_cost res = 1515"
    by auto
  from th bf have p3: "sorted (map bf_cost [\<lparr>bf_size = 7, bf_members = [0, 1, 2, 3, 4, 5, 6],
                            bf_cost = 276367 / 100, bf_power = 1\<rparr>])"
    by blast
  from v p1 sc p2 bf p3 show ?thesis by simp
qed

end
